theory Spec2Isabelle
  imports Main "HOL-Library.AList"
begin

section \<open>Data model of controllers/common/cache.go\<close>

text \<open>
  \<open>schema.GroupVersionKind\<close>: the (group, version, kind) triple that is the only key of
  the informer map. Go strings are byte strings; \<open>string\<close> is a list of bytes here.
\<close>

record GroupVersionKind =
  Group :: string
  Version :: string
  Kind :: string

text \<open>
  Every failure of the file is a normal return value (\<open>error\<close>), except a run-time panic
  of the Go runtime (a slice bound, \<open>reflect.Value.Set\<close> on an unassignable value), which
  unwinds the call: it is the constructor \<open>Panic\<close>.
\<close>

datatype error =
    StatusNotFound string
  | StatusOther string
  | LocalNotFound string string string
  | StoreError string
  | NotAnObject string
  | TypeMismatch string string
  | NonExactFieldMatch
  | IndexMissing string
  | AccessorError
  | ClientError string
  | SchemeError string
  | ConversionError string
  | GVKError string
  | SetListError string
  | Panic string

text \<open>\<open>apierrors.IsNotFound\<close>: the status reason of the error is "NotFound".\<close>

fun IsNotFound :: "error \<Rightarrow> bool" where
  "IsNotFound (StatusNotFound _) = True"
| "IsNotFound (LocalNotFound _ _ _) = True"
| "IsNotFound _ = False"

text \<open>
  A \<open>runtime.Object\<close>: its dynamic Go type (what \<open>reflect.ValueOf(obj).Type()\<close> reads),
  the kind it is stamped with (\<open>GetObjectKind()\<close>), its object metadata when it has any
  (\<open>apimeta.Accessor\<close> fails on \<open>None\<close>), and the rest of its content as named fields.
\<close>

record ObjectMeta =
  Namespace :: string
  Name :: string
  Labels :: "(string \<times> string) list"

record Object =
  GoType :: string
  TypeMeta :: GroupVersionKind
  Meta :: "ObjectMeta option"
  Content :: "(string \<times> string) list"

text \<open>
  What a store hands out is an \<open>interface{}\<close>: a runtime object, or a value of some other
  Go type (named by its type, as \<open>%T\<close> prints it).
\<close>

datatype item = Obj Object | NotObject string

section \<open>Key scheme and kind helpers\<close>

text \<open>\<open>kindToResource\<close>: a lookup in a two-entry Go map; a missing key reads the zero
  value, the empty string.\<close>

definition kindToResourceMap :: "(string \<times> string) list" where
  "kindToResourceMap =
     [(''MutatingWebhookConfiguration'', ''mutatingwebhookconfigurations''),
      (''ValidatingWebhookConfiguration'', ''validatingwebhookconfigurations'')]"

definition kindToResource :: "string \<Rightarrow> string" where
  "kindToResource kind =
     (case map_of kindToResourceMap kind of None \<Rightarrow> [] | Some r \<Rightarrow> r)"

text \<open>The list identifier of a kind, as \<open>buildInformerMap\<close> builds it:
  \<open>Kind: gvk.Kind + "List"\<close>.\<close>

definition gvkList :: "GroupVersionKind \<Rightarrow> GroupVersionKind" where
  "gvkList gvk = \<lparr>Group = Group gvk, Version = Version gvk, Kind = Kind gvk @ ''List''\<rparr>"

text \<open>
  \<open>listToGVK\<close>: \<open>Kind: list.Kind[:len(list.Kind)-2]\<close>. The slice expression panics when
  the kind has fewer than two bytes.
\<close>

definition listToGVK :: "GroupVersionKind \<Rightarrow> error + GroupVersionKind" where
  "listToGVK l =
     (if length (Kind l) < 2 then Inl (Panic ''slice bounds out of range'')
      else Inr \<lparr>Group = Group l, Version = Version l,
                Kind = take (length (Kind l) - 2) (Kind l)\<rparr>)"

definition FieldIndexName :: "string \<Rightarrow> string" where
  "FieldIndexName field = ''field:'' @ field"

definition allNamespacesNamespace :: string where
  "allNamespacesNamespace = ''__all_namespaces''"

definition KeyToNamespacedKey :: "string \<Rightarrow> string \<Rightarrow> string" where
  "KeyToNamespacedKey ns baseKey =
     (if ns \<noteq> [] then ns @ ''/'' @ baseKey
      else allNamespacesNamespace @ ''/'' @ baseKey)"

text \<open>\<open>toolscache.NamespaceIndex\<close>, the name of the built-in namespace index.\<close>

definition NamespaceIndex :: string where
  "NamespaceIndex = ''namespace''"

section \<open>Field selectors\<close>

text \<open>\<open>selection.Operator\<close> and \<open>fields.Requirement\<close>; a \<open>fields.Selector\<close> is read only
  through \<open>Requirements()\<close>, so it is its list of requirements.\<close>

datatype Operator =
    DoesNotExist | Equals | DoubleEquals | In | NotEquals | NotIn | Exists
  | GreaterThan | LessThan

record Requirement =
  ReqOperator :: Operator
  ReqField :: string
  ReqValue :: string

definition requiresExactMatch :: "Requirement list \<Rightarrow> string \<times> string \<times> bool" where
  "requiresExactMatch reqs =
     (case reqs of
        [req] \<Rightarrow>
          (if ReqOperator req \<noteq> Equals \<and> ReqOperator req \<noteq> DoubleEquals
           then ([], [], False)
           else (ReqField req, ReqValue req, True))
      | _ \<Rightarrow> ([], [], False))"

section \<open>The wrapped index function of indexByField\<close>

text \<open>
  The loop \<open>for i, rawVal := range rawVals\<close> writes \<open>vals[i]\<close> and, for a namespaced
  object, \<open>vals[i+len(rawVals)]\<close>. For a cluster-scoped object \<open>vals\<close> is the slice the
  extractor returned; otherwise it is a fresh slice of twice the length, holding empty
  strings. Both indices are in range for every \<open>i\<close> the loop visits. The loop
  function takes \<open>len(rawVals)\<close>, the index \<open>i\<close>, the values not yet visited and
  \<open>vals\<close>; in the aliased case the write to index \<open>i\<close> comes after \<open>rawVal\<close> was read.
\<close>

fun indexFunc_loop :: "string \<Rightarrow> nat \<Rightarrow> nat \<Rightarrow> string list \<Rightarrow> string list \<Rightarrow> string list" where
  "indexFunc_loop ns n i [] vals = vals"
| "indexFunc_loop ns n i (rawVal # rest) vals =
     (let vals1 = vals[i := KeyToNamespacedKey ns rawVal];
          vals2 = (if ns \<noteq> [] then vals1[i + n := KeyToNamespacedKey [] rawVal]
                   else vals1)
      in indexFunc_loop ns n (Suc i) rest vals2)"

text \<open>
  \<open>indexFunc\<close>, the closure \<open>indexByField\<close> registers under \<open>FieldIndexName field\<close>. A
  \<open>client.Object\<close> is a runtime object that carries object metadata, so the type
  assertion fails on anything else and the accessor cannot fail after it.
\<close>

definition indexFunc :: "(Object \<Rightarrow> string list) \<Rightarrow> item \<Rightarrow> error + string list" where
  "indexFunc extractor objRaw =
     (case objRaw of
        NotObject t \<Rightarrow> Inl (NotAnObject t)
      | Obj obj \<Rightarrow>
          (case Meta obj of
             None \<Rightarrow> Inl (NotAnObject (GoType obj))
           | Some meta \<Rightarrow>
               (let ns = Namespace meta;
                    rawVals = extractor obj;
                    vals = (if ns = [] then rawVals
                            else replicate (length rawVals * 2) [])
                in Inr (indexFunc_loop ns (length rawVals) 0 rawVals vals))))"

section \<open>Collaborators\<close>

text \<open>
  The narrow REST client \<open>getClientForGVK\<close> builds is scoped to a group and version; a
  request on it is what the chain \<open>Get().NamespaceIfScoped(ns, ns != "").Name(name).
  Resource(resource)\<close> sets.
\<close>

record Request =
  reqGroupVersion :: "string \<times> string"
  reqNamespace :: "string option"
  reqName :: string
  reqResource :: string

text \<open>\<open>client.ObjectKey\<close> (a \<open>types.NamespacedName\<close>) and its \<open>String()\<close>.\<close>

record ObjectKey =
  KeyNamespace :: string
  KeyName :: string

definition KeyString :: "ObjectKey \<Rightarrow> string" where
  "KeyString key = KeyNamespace key @ ''/'' @ KeyName key"

text \<open>A \<open>client.ObjectList\<close>: its Go type, its kind and its items.\<close>

record ObjectList =
  ListGoType :: string
  ListTypeMeta :: GroupVersionKind
  Items :: "Object list"

text \<open>
  \<open>client.ListOptions\<close> after \<open>ApplyOptions\<close>: a label selector is read only through
  \<open>Matches\<close>, so it is a predicate on label sets; \<open>None\<close> is Go's \<open>nil\<close>.
\<close>

record ListOptions =
  LabelSelector :: "((string \<times> string) list \<Rightarrow> bool) option"
  FieldSelector :: "Requirement list option"
  OptNamespace :: string

text \<open>
  What the file consumes and does not define: the REST client factory for a group and
  version under the cache's connection configuration (\<open>rest.RESTClientFor\<close>), the remote
  store answering a request (\<open>Do(ctx).Get()\<close>), the type scheme (\<open>Scheme.New\<close>,
  \<open>apiutil.GVKForObject\<close> on objects and on lists), the unstructured converter,
  \<open>apimeta.SetList\<close> and the fallback cache.
\<close>

record Env =
  RESTClientFor :: "string \<times> string \<Rightarrow> error option"
  Do :: "Request \<Rightarrow> error + Object"
  SchemeNew :: "GroupVersionKind \<Rightarrow> error + string"
  FromUnstructured :: "GroupVersionKind \<Rightarrow> string \<Rightarrow> error option"
  GVKForObject :: "Object \<Rightarrow> error + GroupVersionKind"
  GVKForList :: "ObjectList \<Rightarrow> error + GroupVersionKind"
  SetList :: "ObjectList \<Rightarrow> Object list \<Rightarrow> error + ObjectList"
  fallbackGet :: "ObjectKey \<Rightarrow> Object \<Rightarrow> error option \<times> Object"
  fallbackList :: "ObjectList \<Rightarrow> ListOptions \<Rightarrow> error option \<times> ObjectList"

definition getClientForGVK :: "Env \<Rightarrow> GroupVersionKind \<Rightarrow> error + string \<times> string" where
  "getClientForGVK env gvk =
     (let gv = (Group gvk, Version gvk)
      in case RESTClientFor env gv of Some err \<Rightarrow> Inl err | None \<Rightarrow> Inr gv)"

section \<open>Watch-backed stores\<close>

text \<open>
  A shared index informer: the list-and-watch subscription it was built on, the type it
  expects, its resync period, and its store as the file reads it, through \<open>GetByKey\<close>
  (item, exists, err), \<open>ByIndex\<close> and \<open>List\<close>.
\<close>

record ListWatch =
  lwGroupVersion :: "string \<times> string"
  lwResource :: string
  lwNamespace :: string

record Informer =
  listerWatcher :: ListWatch
  objType :: string
  resyncPeriod :: nat
  GetByKey :: "string \<Rightarrow> error + item option"
  ByIndex :: "string \<Rightarrow> string \<Rightarrow> error + item list"
  ListItems :: "item list"

definition NewFilteredListWatchFromClient :: "string \<times> string \<Rightarrow> string \<Rightarrow> string \<Rightarrow> ListWatch" where
  "NewFilteredListWatchFromClient client resource ns =
     \<lparr>lwGroupVersion = client, lwResource = resource, lwNamespace = ns\<rparr>"

text \<open>A new informer has an empty store and the one indexer it was given, the namespace
  index; \<open>ByIndex\<close> on any other index name is an error.\<close>

definition emptyByIndex :: "string \<Rightarrow> string \<Rightarrow> error + item list" where
  "emptyByIndex indexName indexedValue =
     (if indexName = NamespaceIndex then Inr [] else Inl (IndexMissing indexName))"

definition emptyGetByKey :: "string \<Rightarrow> error + item option" where
  "emptyGetByKey k = Inr None"

definition NewSharedIndexInformer :: "ListWatch \<Rightarrow> string \<Rightarrow> nat \<Rightarrow> Informer" where
  "NewSharedIndexInformer lw typed resync =
     \<lparr>listerWatcher = lw, objType = typed, resyncPeriod = resync,
      GetByKey = emptyGetByKey, ByIndex = emptyByIndex, ListItems = []\<rparr>"

text \<open>
  Informers are shared by pointer: the informer map holds references into a heap of
  informers, a reference being an index. A reference outside the heap is Go's nil
  pointer.
\<close>

type_synonym heap = "Informer list"

definition deref :: "heap \<Rightarrow> nat \<Rightarrow> Informer option" where
  "deref h r = (if r < length h then Some (h ! r) else None)"

record CSCache =
  informerMap :: "(GroupVersionKind \<times> nat) list"

section \<open>buildInformerMap\<close>

text \<open>
  The loop over \<open>clusterGVKList\<close>, with the map built so far and the heap. Each round
  allocates one informer and stores its reference under the kind and under the list
  kind; any error returns \<open>nil, err\<close>.
\<close>

fun buildInformerMap_loop ::
  "Env \<Rightarrow> string \<Rightarrow> nat \<Rightarrow> GroupVersionKind list \<Rightarrow> (GroupVersionKind \<times> nat) list \<Rightarrow> heap
     \<Rightarrow> error + (GroupVersionKind \<times> nat) list \<times> heap" where
  "buildInformerMap_loop env ns resync [] m h = Inr (m, h)"
| "buildInformerMap_loop env ns resync (gvk # rest) m h =
     (case getClientForGVK env gvk of
        Inl err \<Rightarrow> Inl err
      | Inr client \<Rightarrow>
          (let plural = kindToResource (Kind gvk);
               lw = NewFilteredListWatchFromClient client plural ns
           in case SchemeNew env gvk of
                Inl err \<Rightarrow> Inl err
              | Inr typed \<Rightarrow>
                  (case FromUnstructured env gvk typed of
                     Some err \<Rightarrow> Inl err
                   | None \<Rightarrow>
                       (let informer = NewSharedIndexInformer lw typed resync;
                            r = length h;
                            m1 = AList.update gvk r m;
                            m2 = AList.update (gvkList gvk) r m1
                        in buildInformerMap_loop env ns resync rest m2 (h @ [informer])))))"

definition buildInformerMap ::
  "Env \<Rightarrow> string \<Rightarrow> nat \<Rightarrow> GroupVersionKind list \<Rightarrow> heap
     \<Rightarrow> error + (GroupVersionKind \<times> nat) list \<times> heap" where
  "buildInformerMap env ns resync clusterGVKList h =
     buildInformerMap_loop env ns resync clusterGVKList [] h"

section \<open>Get\<close>

text \<open>
  \<open>reflect.Type.AssignableTo\<close> on the named types of API objects: a type is assignable
  to itself and to no other named type. \<open>reflect.Value.Set\<close> panics when the value is
  not assignable; otherwise the caller's object takes the item's content, and is then
  stamped with the kind.
\<close>

definition AssignableTo :: "string \<Rightarrow> string \<Rightarrow> bool" where
  "AssignableTo t u = (t = u)"

definition copyInto :: "Object \<Rightarrow> Object \<Rightarrow> GroupVersionKind \<Rightarrow> error option \<times> Object" where
  "copyInto obj item gvk =
     (if \<not> AssignableTo (GoType obj) (GoType obj)
      then (Some (TypeMismatch (GoType item) (GoType obj)), obj)
      else if AssignableTo (GoType item) (GoType obj)
      then (None, item\<lparr>TypeMeta := gvk\<rparr>)
      else (Some (Panic ''reflect.Set: value is not assignable''), obj))"

definition getFromStore :: "Informer \<Rightarrow> ObjectKey \<Rightarrow> Object \<Rightarrow> GroupVersionKind \<Rightarrow> error option \<times> Object" where
  "getFromStore informer key obj gvk =
     (let keyString = (if KeyNamespace key = [] then KeyName key
                       else KeyNamespace key @ ''/'' @ KeyName key)
      in case GetByKey informer keyString of
           Inl err \<Rightarrow> (Some err, obj)
         | Inr None \<Rightarrow> (Some (LocalNotFound (Group gvk) (Kind gvk) (KeyString key)), obj)
         | Inr (Some (NotObject t)) \<Rightarrow> (Some (NotAnObject t), obj)
         | Inr (Some (Obj item)) \<Rightarrow> copyInto obj item gvk)"

definition getFromClient_request :: "string \<times> string \<Rightarrow> ObjectKey \<Rightarrow> GroupVersionKind \<Rightarrow> Request" where
  "getFromClient_request client key gvk =
     \<lparr>reqGroupVersion = client,
      reqNamespace = (if KeyNamespace key \<noteq> [] then Some (KeyNamespace key) else None),
      reqName = KeyName key,
      reqResource = kindToResource (Kind gvk)\<rparr>"

definition getFromClient :: "Env \<Rightarrow> ObjectKey \<Rightarrow> Object \<Rightarrow> GroupVersionKind \<Rightarrow> error option \<times> Object" where
  "getFromClient env key obj gvk =
     (case getClientForGVK env gvk of
        Inl err \<Rightarrow> (Some err, obj)
      | Inr client \<Rightarrow>
          (case Do env (getFromClient_request client key gvk) of
             Inl err \<Rightarrow> (if IsNotFound err then (Some err, obj) else (Some err, obj))
           | Inr result \<Rightarrow> copyInto obj result gvk))"

fun isPanic :: "error \<Rightarrow> bool" where
  "isPanic (Panic _) = True"
| "isPanic _ = False"

text \<open>
  \<open>Get\<close> returns the error (if any), the caller's object and the heap of informers
  after the call. A panic in \<open>getFromStore\<close> unwinds \<open>Get\<close>; any error it returns sends
  the call to \<open>getFromClient\<close>.
\<close>

definition Get :: "Env \<Rightarrow> heap \<Rightarrow> CSCache \<Rightarrow> ObjectKey \<Rightarrow> Object \<Rightarrow> error option \<times> Object \<times> heap" where
  "Get env h c key obj =
     (case GVKForObject env obj of
        Inl err \<Rightarrow> (Some err, obj, h)
      | Inr gvk \<Rightarrow>
          (case map_of (informerMap c) gvk of
             Some r \<Rightarrow>
               (case deref h r of
                  None \<Rightarrow> (Some (Panic ''nil pointer dereference''), obj, h)
                | Some informer \<Rightarrow>
                    (case getFromStore informer key obj gvk of
                       (None, obj1) \<Rightarrow> (None, obj1, h)
                     | (Some err, obj1) \<Rightarrow>
                         (if isPanic err then (Some err, obj1, h)
                          else (case getFromClient env key obj1 gvk of
                                  (res, obj2) \<Rightarrow> (res, obj2, h)))))
           | None \<Rightarrow> (case fallbackGet env key obj of (res, obj1) \<Rightarrow> (res, obj1, h))))"

section \<open>List\<close>

text \<open>Candidate selection: the \<open>if / else if / else\<close> chain on the field selector and
  the namespace, ending in \<open>if err != nil { return err }\<close>.\<close>

definition List_candidates :: "Informer \<Rightarrow> ListOptions \<Rightarrow> error + item list" where
  "List_candidates informer listOpts =
     (case FieldSelector listOpts of
        Some sel \<Rightarrow>
          (case requiresExactMatch sel of
             (field, val, requiresExact) \<Rightarrow>
               (if \<not> requiresExact then Inl NonExactFieldMatch
                else ByIndex informer (FieldIndexName field)
                       (KeyToNamespacedKey (OptNamespace listOpts) val)))
      | None \<Rightarrow>
          (if OptNamespace listOpts \<noteq> []
           then ByIndex informer NamespaceIndex (OptNamespace listOpts)
           else Inr (ListItems informer)))"

text \<open>
  The loop \<open>for _, item := range objList\<close>, with \<open>runtimeObjList\<close> as accumulator:
  \<open>continue\<close> on a namespace or label mismatch, otherwise a deep copy stamped with
  \<open>listToGVK(gvk)\<close> is appended.
\<close>

fun List_loop ::
  "GroupVersionKind \<Rightarrow> ListOptions \<Rightarrow> item list \<Rightarrow> Object list \<Rightarrow> error + Object list" where
  "List_loop gvk listOpts [] runtimeObjList = Inr runtimeObjList"
| "List_loop gvk listOpts (NotObject t # rest) runtimeObjList = Inl (NotAnObject t)"
| "List_loop gvk listOpts (Obj obj # rest) runtimeObjList =
     (case Meta obj of
        None \<Rightarrow> Inl AccessorError
      | Some meta \<Rightarrow>
          (let namespace = (if OptNamespace listOpts \<noteq> [] then OptNamespace listOpts else [])
           in if namespace \<noteq> [] \<and> namespace \<noteq> Namespace meta
              then List_loop gvk listOpts rest runtimeObjList
              else if (case LabelSelector listOpts of
                         None \<Rightarrow> False
                       | Some labelSel \<Rightarrow> \<not> labelSel (Labels meta))
              then List_loop gvk listOpts rest runtimeObjList
              else (case listToGVK gvk of
                      Inl err \<Rightarrow> Inl err
                    | Inr single \<Rightarrow>
                        List_loop gvk listOpts rest
                          (runtimeObjList @ [obj\<lparr>TypeMeta := single\<rparr>]))))"

text \<open>\<open>List\<close> returns the error (if any) and the caller's list object.\<close>

definition List :: "Env \<Rightarrow> heap \<Rightarrow> CSCache \<Rightarrow> ObjectList \<Rightarrow> ListOptions \<Rightarrow> error option \<times> ObjectList" where
  "List env h c list listOpts =
     (case GVKForList env list of
        Inl err \<Rightarrow> (Some err, list)
      | Inr gvk \<Rightarrow>
          (case map_of (informerMap c) gvk of
             Some r \<Rightarrow>
               (case deref h r of
                  None \<Rightarrow> (Some (Panic ''nil pointer dereference''), list)
                | Some informer \<Rightarrow>
                    (case List_candidates informer listOpts of
                       Inl err \<Rightarrow> (Some err, list)
                     | Inr objList \<Rightarrow>
                         (case List_loop gvk listOpts objList [] of
                            Inl err \<Rightarrow> (Some err, list)
                          | Inr runtimeObjList \<Rightarrow>
                              (case SetList env list runtimeObjList of
                                 Inl err \<Rightarrow> (Some err, list)
                               | Inr list1 \<Rightarrow> (None, list1)))))
           | None \<Rightarrow> fallbackList env list listOpts))"

section \<open>WaitForCacheSync\<close>

text \<open>
  The loop polls once a second. Its surroundings are a timeline: \<open>Done t\<close> says the
  context is cancelled when the loop reaches its \<open>select\<close> after \<open>t\<close> one-second timers
  have fired (the freshly made timer is then not ready, so the \<open>ctx.Done()\<close> case is
  taken); \<open>HasSynced t r\<close> is what informer \<open>r\<close> reports when the timer of round \<open>t\<close> fires;
  \<open>fallbackWaitForCacheSync t\<close> is what the fallback cache's own wait returns when
  called after \<open>t\<close> timers, \<open>None\<close> when it never returns.
\<close>

record Timeline =
  Done :: "nat \<Rightarrow> bool"
  HasSynced :: "nat \<Rightarrow> nat \<Rightarrow> bool"
  fallbackWaitForCacheSync :: "nat \<Rightarrow> bool option"

definition currentWaiting :: "Timeline \<Rightarrow> nat \<Rightarrow> (GroupVersionKind \<times> nat) list \<Rightarrow> bool" where
  "currentWaiting w t m = foldl (\<lambda>cw (gvk, r). \<not> HasSynced w t r \<or> cw) False m"

text \<open>The loop may run forever; it returns the number of timers that fired before it
  stopped waiting.\<close>

partial_function (option) WaitForCacheSync_loop ::
  "Timeline \<Rightarrow> (GroupVersionKind \<times> nat) list \<Rightarrow> nat \<Rightarrow> nat option" where
  "WaitForCacheSync_loop w m t =
     (if Done w t then Some t
      else if length m = 0 then Some (Suc t)
      else if currentWaiting w t m then WaitForCacheSync_loop w m (Suc t)
      else Some (Suc t))"

definition WaitForCacheSync :: "Timeline \<Rightarrow> CSCache \<Rightarrow> bool option" where
  "WaitForCacheSync w c =
     (case WaitForCacheSync_loop w (informerMap c) 0 of
        None \<Rightarrow> None
      | Some t \<Rightarrow> fallbackWaitForCacheSync w t)"

section \<open>Notions the properties are stated with\<close>

text \<open>A kind resolves when each fallible step of its round of \<open>buildInformerMap\<close>
  succeeds: the client, the typed object of the scheme, the conversion.\<close>

definition resolves :: "Env \<Rightarrow> GroupVersionKind \<Rightarrow> bool" where
  "resolves env gvk =
     (case getClientForGVK env gvk of
        Inl err \<Rightarrow> False
      | Inr client \<Rightarrow>
          (case SchemeNew env gvk of
             Inl err \<Rightarrow> False
           | Inr typed \<Rightarrow> FromUnstructured env gvk typed = None))"

text \<open>
  The selection precedence of List in the specification's words: a field selector that
  is one equality requirement reads the field index, under the namespace-qualified key
  when a namespace is requested and under the namespace-agnostic key otherwise; any
  other field selector is unsupported; with no field selector, a requested namespace
  reads the namespace index; with neither, all snapshots are the candidates.
\<close>

definition spec_candidates :: "Informer \<Rightarrow> ListOptions \<Rightarrow> error + item list" where
  "spec_candidates informer listOpts =
     (case FieldSelector listOpts of
        Some sel \<Rightarrow>
          (case sel of
             [req] \<Rightarrow>
               (if ReqOperator req = Equals \<or> ReqOperator req = DoubleEquals
                then (if OptNamespace listOpts \<noteq> []
                      then ByIndex informer (''field:'' @ ReqField req)
                             (OptNamespace listOpts @ ''/'' @ ReqValue req)
                      else ByIndex informer (''field:'' @ ReqField req)
                             (''__all_namespaces/'' @ ReqValue req))
                else Inl NonExactFieldMatch)
           | _ \<Rightarrow> Inl NonExactFieldMatch)
      | None \<Rightarrow>
          (if OptNamespace listOpts \<noteq> []
           then ByIndex informer ''namespace'' (OptNamespace listOpts)
           else Inr (ListItems informer)))"

text \<open>The post-filter pass in the specification's words: a candidate survives when its
  namespace is the requested one (if one is requested) and the label selector (if
  present) matches its labels; the survivors are stamped, in order.\<close>

definition spec_survives :: "ListOptions \<Rightarrow> ObjectMeta \<Rightarrow> bool" where
  "spec_survives listOpts meta =
     ((OptNamespace listOpts = [] \<or> Namespace meta = OptNamespace listOpts) \<and>
      (case LabelSelector listOpts of
         None \<Rightarrow> True
       | Some labelSel \<Rightarrow> labelSel (Labels meta)))"

fun spec_postFilter :: "ListOptions \<Rightarrow> GroupVersionKind \<Rightarrow> item list \<Rightarrow> Object list" where
  "spec_postFilter listOpts single [] = []"
| "spec_postFilter listOpts single (NotObject t # rest) = spec_postFilter listOpts single rest"
| "spec_postFilter listOpts single (Obj obj # rest) =
     (case Meta obj of
        None \<Rightarrow> spec_postFilter listOpts single rest
      | Some meta \<Rightarrow>
          (if spec_survives listOpts meta
           then obj\<lparr>TypeMeta := single\<rparr> # spec_postFilter listOpts single rest
           else spec_postFilter listOpts single rest))"

text \<open>A store item that is a runtime object with object metadata.\<close>

fun hasMeta :: "item \<Rightarrow> bool" where
  "hasMeta (Obj obj) = (Meta obj \<noteq> None)"
| "hasMeta (NotObject t) = False"

section \<open>Example inputs\<close>

text \<open>Concrete kinds, objects and collaborators on which the theorems below are
  instantiated.\<close>

definition mwcKind :: GroupVersionKind where
  "mwcKind = \<lparr>Group = ''admissionregistration.k8s.io'', Version = ''v1'',
              Kind = ''MutatingWebhookConfiguration''\<rparr>"

definition widgetKind :: GroupVersionKind where
  "widgetKind = \<lparr>Group = ''example.com'', Version = ''v1'', Kind = ''Widget''\<rparr>"

definition w1meta :: ObjectMeta where
  "w1meta = \<lparr>Namespace = ''ops'', Name = ''w1'', Labels = [(''app'', ''demo'')]\<rparr>"

definition w1 :: Object where
  "w1 = \<lparr>GoType = ''*v1.Widget'', TypeMeta = widgetKind, Meta = Some w1meta,
         Content = [(''color'', ''red'')]\<rparr>"

definition c1meta :: ObjectMeta where
  "c1meta = \<lparr>Namespace = [], Name = ''c1'', Labels = []\<rparr>"

definition c1 :: Object where
  "c1 = \<lparr>GoType = ''*v1.Widget'', TypeMeta = widgetKind, Meta = Some c1meta,
         Content = [(''color'', ''blue'')]\<rparr>"

definition colorOf :: "Object \<Rightarrow> string list" where
  "colorOf obj = (case map_of (Content obj) ''color'' of None \<Rightarrow> [] | Some v \<Rightarrow> [v])"

definition w2 :: Object where
  "w2 = \<lparr>GoType = ''*v1.Widget'', TypeMeta = widgetKind,
         Meta = Some \<lparr>Namespace = ''ops'', Name = ''w2'', Labels = []\<rparr>,
         Content = [(''color'', ''green'')]\<rparr>"

definition blankWidget :: Object where
  "blankWidget = \<lparr>GoType = ''*v1.Widget'', TypeMeta = \<lparr>Group = [], Version = [], Kind = []\<rparr>,
         Meta = Some \<lparr>Namespace = [], Name = [], Labels = []\<rparr>, Content = []\<rparr>"

definition blankGadget :: Object where
  "blankGadget = \<lparr>GoType = ''*v1.Gadget'', TypeMeta = \<lparr>Group = [], Version = [], Kind = []\<rparr>,
         Meta = Some \<lparr>Namespace = [], Name = [], Labels = []\<rparr>, Content = []\<rparr>"

definition widgetList :: ObjectList where
  "widgetList = \<lparr>ListGoType = ''*v1.WidgetList'',
         ListTypeMeta = \<lparr>Group = [], Version = [], Kind = []\<rparr>, Items = []\<rparr>"

text \<open>Collaborators that resolve every kind; the remote store holds \<open>w2\<close> alone.\<close>

definition exampleDo :: "Request \<Rightarrow> error + Object" where
  "exampleDo req = (if reqName req = ''w2'' then Inr w2 else Inl (StatusNotFound (reqName req)))"

definition exampleGVKForObject :: "Object \<Rightarrow> error + GroupVersionKind" where
  "exampleGVKForObject obj = Inr widgetKind"

definition exampleGVKForList :: "ObjectList \<Rightarrow> error + GroupVersionKind" where
  "exampleGVKForList l = Inr (gvkList widgetKind)"

definition exampleSetList :: "ObjectList \<Rightarrow> Object list \<Rightarrow> error + ObjectList" where
  "exampleSetList l objs = Inr (l\<lparr>Items := objs\<rparr>)"

definition exampleSchemeNew :: "GroupVersionKind \<Rightarrow> error + string" where
  "exampleSchemeNew gvk = Inr (''*v1.'' @ Kind gvk)"

definition exampleEnv :: Env where
  "exampleEnv =
     \<lparr>RESTClientFor = (\<lambda>gv. None), Do = exampleDo, SchemeNew = exampleSchemeNew,
      FromUnstructured = (\<lambda>gvk typed. None), GVKForObject = exampleGVKForObject,
      GVKForList = exampleGVKForList, SetList = exampleSetList,
      fallbackGet = (\<lambda>key obj. (Some (StatusNotFound (KeyName key)), obj)),
      fallbackList = (\<lambda>l listOpts. (None, l))\<rparr>"

text \<open>A widget store holding \<open>w1\<close> (namespace \<open>ops\<close>, colour red) and the cluster-scoped
  \<open>c1\<close> (colour blue), with a field index on the colour.\<close>

definition widgetGetByKey :: "string \<Rightarrow> error + item option" where
  "widgetGetByKey k =
     (if k = ''ops/w1'' then Inr (Some (Obj w1))
      else if k = ''c1'' then Inr (Some (Obj c1)) else Inr None)"

definition widgetByIndex :: "string \<Rightarrow> string \<Rightarrow> error + item list" where
  "widgetByIndex indexName v =
     (if indexName = ''namespace'' then (if v = ''ops'' then Inr [Obj w1] else Inr [])
      else if indexName = ''field:color''
      then (if v = ''ops/red'' then Inr [Obj w1]
            else if v = ''__all_namespaces/red'' then Inr [Obj w1]
            else if v = ''__all_namespaces/blue'' then Inr [Obj c1] else Inr [])
      else Inl (IndexMissing indexName))"

definition widgetInformer :: Informer where
  "widgetInformer =
     \<lparr>listerWatcher = \<lparr>lwGroupVersion = (''example.com'', ''v1''), lwResource = [],
                        lwNamespace = []\<rparr>,
      objType = ''*v1.Widget'', resyncPeriod = 0,
      GetByKey = widgetGetByKey, ByIndex = widgetByIndex, ListItems = [Obj w1, Obj c1]\<rparr>"

definition widgetCache :: CSCache where
  "widgetCache = \<lparr>informerMap = [(widgetKind, 0), (gvkList widgetKind, 0)]\<rparr>"

definition colorRed :: Requirement where
  "colorRed = \<lparr>ReqOperator = Equals, ReqField = ''color'', ReqValue = ''red''\<rparr>"

definition colorNotRed :: Requirement where
  "colorNotRed = \<lparr>ReqOperator = NotEquals, ReqField = ''color'', ReqValue = ''red''\<rparr>"

definition redInOps :: ListOptions where
  "redInOps = \<lparr>LabelSelector = None, FieldSelector = Some [colorRed], OptNamespace = ''ops''\<rparr>"

definition notRed :: ListOptions where
  "notRed = \<lparr>LabelSelector = None, FieldSelector = Some [colorNotRed], OptNamespace = []\<rparr>"

text \<open>The registry that construction builds from a kind followed by its own list kind.\<close>

definition clashRegistry :: "(GroupVersionKind \<times> nat) list" where
  "clashRegistry =
     [(widgetKind, 0), (gvkList widgetKind, 1), (gvkList (gvkList widgetKind), 1)]"

text \<open>A timeline cancelled from the start on which the fallback cache reports
  synchronized, and one cancelled after two polls of stores that never synchronize, on
  which it reports not synchronized.\<close>

definition cancelledSynced :: Timeline where
  "cancelledSynced =
     \<lparr>Done = (\<lambda>t. True), HasSynced = (\<lambda>t r. True),
      fallbackWaitForCacheSync = (\<lambda>t. Some True)\<rparr>"

definition cancelledLate :: Timeline where
  "cancelledLate =
     \<lparr>Done = (\<lambda>t. 2 \<le> t), HasSynced = (\<lambda>t r. False),
      fallbackWaitForCacheSync = (\<lambda>t. Some False)\<rparr>"

section \<open>Kind helpers and key scheme: properties\<close>

text \<open>
  C1. \<open>listToGVK\<close> is meant to turn the list identifier of a kind back into the kind,
  so that the objects \<open>List\<close> returns carry the singular kind. It cuts two bytes, not the
  four of \<open>"List"\<close>: on the list identifier of any kind it returns the kind followed by
  \<open>"Li"\<close>, never the kind itself.
\<close>

theorem listToGVK_cuts_two_bytes:
  "listToGVK (gvkList gvk) = Inr (gvk\<lparr>Kind := Kind gvk @ ''Li''\<rparr>) \<and>
   listToGVK (gvkList gvk) \<noteq> Inr gvk"
  by (cases gvk) (simp add: listToGVK_def gvkList_def)

lemma kindToResource_other:
  "kind \<noteq> ''MutatingWebhookConfiguration'' \<Longrightarrow>
   kind \<noteq> ''ValidatingWebhookConfiguration'' \<Longrightarrow> kindToResource kind = []"
  by (simp add: kindToResource_def kindToResourceMap_def)

lemma KeyToNamespacedKey_all: "KeyToNamespacedKey [] = (\<lambda>v. ''__all_namespaces/'' @ v)"
  by (rule ext) (simp add: KeyToNamespacedKey_def allNamespacesNamespace_def)

lemma KeyToNamespacedKey_ns:
  "ns \<noteq> [] \<Longrightarrow> KeyToNamespacedKey ns = (\<lambda>v. ns @ ''/'' @ v)"
  by (rule ext) (simp add: KeyToNamespacedKey_def)

section \<open>The wrapped index function: properties\<close>

text \<open>The loop on a namespaced object: after the values up to \<open>i\<close> have been written,
  the rest fills both halves of the doubled slice.\<close>

lemma indexFunc_loop_namespaced:
  "ns \<noteq> [] \<Longrightarrow> length vals = 2 * n \<Longrightarrow> i + length rest = n \<Longrightarrow>
   indexFunc_loop ns n i rest vals =
     take i vals @ map (KeyToNamespacedKey ns) rest @
     take i (drop n vals) @ map (KeyToNamespacedKey []) rest"
proof (induction rest arbitrary: i vals)
  case Nil
  then show ?case by simp
next
  case (Cons a rest)
  let ?v = "vals[i := KeyToNamespacedKey ns a, i + n := KeyToNamespacedKey [] a]"
  have i: "i < n" using Cons.prems by simp
  have len: "length ?v = 2 * n" using Cons.prems by simp
  have t1: "take (Suc i) ?v = take i vals @ [KeyToNamespacedKey ns a]"
    using i Cons.prems(2) by (simp add: take_Suc_conv_app_nth nth_list_update)
  have t2: "take (Suc i) (drop n ?v) = take i (drop n vals) @ [KeyToNamespacedKey [] a]"
    using i Cons.prems(2)
    by (simp add: take_Suc_conv_app_nth nth_list_update drop_update_swap)
  have "indexFunc_loop ns n i (a # rest) vals = indexFunc_loop ns n (Suc i) rest ?v"
    using Cons.prems(1) by simp
  also have "\<dots> = take (Suc i) ?v @ map (KeyToNamespacedKey ns) rest @
                  take (Suc i) (drop n ?v) @ map (KeyToNamespacedKey []) rest"
    using Cons.IH[OF Cons.prems(1) len] Cons.prems(3) by simp
  finally show ?case using t1 t2 by simp
qed

text \<open>The loop on a cluster-scoped object overwrites the extractor's slice in place.\<close>

lemma indexFunc_loop_cluster:
  "length vals = n \<Longrightarrow> i + length rest = n \<Longrightarrow>
   indexFunc_loop [] n i rest vals = take i vals @ map (KeyToNamespacedKey []) rest"
proof (induction rest arbitrary: i vals)
  case Nil
  then show ?case by simp
next
  case (Cons a rest)
  let ?v = "vals[i := KeyToNamespacedKey [] a]"
  have i: "i < n" using Cons.prems by simp
  have t1: "take (Suc i) ?v = take i vals @ [KeyToNamespacedKey [] a]"
    using i Cons.prems(1) by (simp add: take_Suc_conv_app_nth)
  have "indexFunc_loop [] n i (a # rest) vals = indexFunc_loop [] n (Suc i) rest ?v"
    by simp
  also have "\<dots> = take (Suc i) ?v @ map (KeyToNamespacedKey []) rest"
    using Cons.IH[of ?v "Suc i"] Cons.prems by simp
  finally show ?case using t1 by simp
qed

text \<open>
  C5. For an object with metadata, the wrapped index function returns, for a namespaced
  object, the namespace-qualified key \<open>ns/value\<close> of every extracted value followed by
  the namespace-agnostic key \<open>__all_namespaces/value\<close> of every extracted value (two
  keys per value), and for a cluster-scoped object the namespace-agnostic key of every
  extracted value alone (one key per value).
\<close>

theorem indexFunc_keys:
  assumes "Meta obj = Some meta"
  shows "indexFunc extractor (Obj obj) =
     Inr (if Namespace meta = []
          then map (\<lambda>v. ''__all_namespaces/'' @ v) (extractor obj)
          else map (\<lambda>v. Namespace meta @ ''/'' @ v) (extractor obj) @
               map (\<lambda>v. ''__all_namespaces/'' @ v) (extractor obj))"
proof (cases "Namespace meta = []")
  case True
  show ?thesis
    using assms True
      indexFunc_loop_cluster[of "extractor obj" "length (extractor obj)" 0 "extractor obj"]
    by (simp add: indexFunc_def KeyToNamespacedKey_all)
next
  case False
  show ?thesis
    using assms False
      indexFunc_loop_namespaced[of "Namespace meta"
        "replicate (length (extractor obj) * 2) []" "length (extractor obj)" 0 "extractor obj"]
    by (simp add: indexFunc_def KeyToNamespacedKey_all KeyToNamespacedKey_ns Let_def)
qed

theorem indexFunc_keys_witness:
  "Meta w1 = Some w1meta \<and>
   indexFunc colorOf (Obj w1) = Inr [''ops/red'', ''__all_namespaces/red''] \<and>
   Meta c1 = Some c1meta \<and>
   indexFunc colorOf (Obj c1) = Inr [''__all_namespaces/blue'']"
proof -
  have m1: "Meta w1 = Some w1meta" by (simp add: w1_def)
  have m2: "Meta c1 = Some c1meta" by (simp add: c1_def)
  show ?thesis
    using m1 m2 indexFunc_keys[OF m1, of colorOf] indexFunc_keys[OF m2, of colorOf]
    by (simp add: w1_def w1meta_def c1_def c1meta_def colorOf_def)
qed

section \<open>Registry construction: properties\<close>

lemma gvkList_inj: "gvkList a = gvkList b \<Longrightarrow> a = b"
  by (cases a, cases b) (simp add: gvkList_def)

lemma gvkList_neq: "gvkList a \<noteq> a"
  by (cases a) (simp add: gvkList_def)

text \<open>One round of the loop: on a kind that resolves it allocates an informer on the
  kind's subscription and goes on; on any other kind it returns an error.\<close>

lemma buildInformerMap_loop_step:
  "resolves env gvk \<Longrightarrow>
   \<exists>inf. buildInformerMap_loop env ns resync (gvk # rest) m h =
           buildInformerMap_loop env ns resync rest
             (AList.update (gvkList gvk) (length h) (AList.update gvk (length h) m))
             (h @ [inf]) \<and>
         listerWatcher inf =
           NewFilteredListWatchFromClient (Group gvk, Version gvk)
             (kindToResource (Kind gvk)) ns"
  by (auto simp: resolves_def getClientForGVK_def Let_def NewSharedIndexInformer_def
      split: sum.splits option.splits)

lemma buildInformerMap_loop_fail:
  "\<not> resolves env gvk \<Longrightarrow>
   \<exists>err. buildInformerMap_loop env ns resync (gvk # rest) m h = Inl err"
  by (auto simp: resolves_def Let_def split: sum.splits option.splits)

lemma buildInformerMap_loop_success:
  "(\<exists>res. buildInformerMap_loop env ns resync gvks m h = Inr res) =
   (\<forall>g\<in>set gvks. resolves env g)"
proof (induction gvks arbitrary: m h)
  case Nil
  then show ?case by simp
next
  case (Cons g gvks)
  show ?case
  proof (cases "resolves env g")
    case True
    from buildInformerMap_loop_step[OF True, of ns resync gvks m h] obtain inf where
      "buildInformerMap_loop env ns resync (g # gvks) m h =
       buildInformerMap_loop env ns resync gvks
         (AList.update (gvkList g) (length h) (AList.update g (length h) m)) (h @ [inf])"
      by blast
    then show ?thesis using True Cons.IH by simp
  next
    case False
    from buildInformerMap_loop_fail[OF False, of ns resync gvks m h]
    show ?thesis using False by auto
  qed
qed

text \<open>The invariant of the loop when no kind of the list is the list kind of another:
  every kind visited ends up paired with its list kind, and no other key is touched.\<close>

lemma buildInformerMap_loop_registry:
  "buildInformerMap_loop env ns resync gvks m h = Inr (m', h') \<Longrightarrow>
   \<forall>a\<in>set gvks. gvkList a \<notin> set gvks \<Longrightarrow>
   (\<forall>g\<in>set gvks. \<exists>r. map_of m' g = Some r \<and> map_of m' (gvkList g) = Some r \<and>
       r < length h') \<and>
   (\<forall>k. k \<notin> set gvks \<and> k \<notin> gvkList ` set gvks \<longrightarrow> map_of m' k = map_of m k) \<and>
   length h \<le> length h'"
proof (induction gvks arbitrary: m h)
  case Nil
  then show ?case by simp
next
  case (Cons g gvks)
  have res: "resolves env g"
    using buildInformerMap_loop_success[of env ns resync "g # gvks" m h] Cons.prems(1)
    by simp
  let ?m2 = "AList.update (gvkList g) (length h) (AList.update g (length h) m)"
  from buildInformerMap_loop_step[OF res, of ns resync gvks m h] obtain inf where
    step: "buildInformerMap_loop env ns resync (g # gvks) m h =
           buildInformerMap_loop env ns resync gvks ?m2 (h @ [inf])"
    by blast
  have run: "buildInformerMap_loop env ns resync gvks ?m2 (h @ [inf]) = Inr (m', h')"
    using step Cons.prems(1) by simp
  have nl: "\<forall>a\<in>set gvks. gvkList a \<notin> set gvks" using Cons.prems(2) by auto
  note IH = Cons.IH[OF run nl]
  have len: "length h < length h'" using IH by simp
  have m2g: "map_of ?m2 g = Some (length h)" "map_of ?m2 (gvkList g) = Some (length h)"
    using gvkList_neq[of g] by (auto simp: update_conv')
  have g_ok: "\<exists>r. map_of m' g = Some r \<and> map_of m' (gvkList g) = Some r \<and> r < length h'"
  proof (cases "g \<in> set gvks")
    case True
    then show ?thesis using IH by blast
  next
    case False
    have a: "g \<notin> gvkList ` set gvks" using Cons.prems(2) by auto
    have b: "gvkList g \<notin> set gvks" using Cons.prems(2) by auto
    have c: "gvkList g \<notin> gvkList ` set gvks" using False gvkList_inj by blast
    have "map_of m' g = Some (length h)" using IH False a m2g by simp
    moreover have "map_of m' (gvkList g) = Some (length h)" using IH b c m2g by simp
    ultimately show ?thesis using len by simp
  qed
  have frame: "\<forall>k. k \<notin> set (g # gvks) \<and> k \<notin> gvkList ` set (g # gvks) \<longrightarrow>
                 map_of m' k = map_of m k"
  proof (intro allI impI)
    fix k assume k: "k \<notin> set (g # gvks) \<and> k \<notin> gvkList ` set (g # gvks)"
    then have "map_of m' k = map_of ?m2 k" using IH by simp
    also have "\<dots> = map_of m k" using k by (simp add: update_conv')
    finally show "map_of m' k = map_of m k" .
  qed
  show ?case using g_ok frame IH len by auto
qed

text \<open>The heap after the loop: the informers that were there, then one per kind of the
  list, in order, each on the subscription built for its kind.\<close>

lemma buildInformerMap_loop_heap:
  "buildInformerMap_loop env ns resync gvks m h = Inr (m', h') \<Longrightarrow>
   length h' = length h + length gvks \<and>
   (\<forall>i<length gvks. listerWatcher (h' ! (length h + i)) =
       NewFilteredListWatchFromClient (Group (gvks ! i), Version (gvks ! i))
         (kindToResource (Kind (gvks ! i))) ns) \<and>
   (\<forall>i<length h. h' ! i = h ! i)"
proof (induction gvks arbitrary: m h)
  case Nil
  then show ?case by simp
next
  case (Cons g gvks)
  have res: "resolves env g"
    using buildInformerMap_loop_success[of env ns resync "g # gvks" m h] Cons.prems(1)
    by simp
  let ?m2 = "AList.update (gvkList g) (length h) (AList.update g (length h) m)"
  from buildInformerMap_loop_step[OF res, of ns resync gvks m h] obtain inf where
    step: "buildInformerMap_loop env ns resync (g # gvks) m h =
           buildInformerMap_loop env ns resync gvks ?m2 (h @ [inf])"
    and lw: "listerWatcher inf =
             NewFilteredListWatchFromClient (Group g, Version g) (kindToResource (Kind g)) ns"
    by blast
  have run: "buildInformerMap_loop env ns resync gvks ?m2 (h @ [inf]) = Inr (m', h')"
    using step Cons.prems(1) by simp
  note IH = Cons.IH[OF run]
  have l: "length h' = length (g # gvks) + length h" using IH by simp
  have old: "\<forall>i<length h. h' ! i = h ! i"
  proof (intro allI impI)
    fix i assume "i < length h"
    then show "h' ! i = h ! i" using IH by (auto simp: nth_append dest!: spec[where x=i])
  qed
  have new0: "h' ! length h = inf"
    using IH by (auto simp: nth_append dest!: spec[where x="length h"])
  have new: "\<forall>i<length (g # gvks). listerWatcher (h' ! (length h + i)) =
       NewFilteredListWatchFromClient (Group ((g # gvks) ! i), Version ((g # gvks) ! i))
         (kindToResource (Kind ((g # gvks) ! i))) ns"
  proof (intro allI impI)
    fix i assume i: "i < length (g # gvks)"
    show "listerWatcher (h' ! (length h + i)) =
       NewFilteredListWatchFromClient (Group ((g # gvks) ! i), Version ((g # gvks) ! i))
         (kindToResource (Kind ((g # gvks) ! i))) ns"
    proof (cases i)
      case 0
      then show ?thesis using new0 lw by simp
    next
      case (Suc j)
      then have "j < length gvks" using i by simp
      then show ?thesis using IH Suc by simp
    qed
  qed
  show ?case using l old new by simp
qed

text \<open>Every key of a constructed registry has a group and version for which the client
  factory succeeded during construction.\<close>

lemma buildInformerMap_loop_clients:
  "buildInformerMap_loop env ns resync gvks m h = Inr (m', h') \<Longrightarrow>
   \<forall>k r. map_of m k = Some r \<longrightarrow> RESTClientFor env (Group k, Version k) = None \<Longrightarrow>
   map_of m' k = Some r \<Longrightarrow> RESTClientFor env (Group k, Version k) = None"
proof (induction gvks arbitrary: m h)
  case Nil
  then show ?case by simp
next
  case (Cons g gvks)
  have res: "resolves env g"
    using buildInformerMap_loop_success[of env ns resync "g # gvks" m h] Cons.prems(1)
    by simp
  let ?m2 = "AList.update (gvkList g) (length h) (AList.update g (length h) m)"
  from buildInformerMap_loop_step[OF res, of ns resync gvks m h] obtain inf where
    step: "buildInformerMap_loop env ns resync (g # gvks) m h =
           buildInformerMap_loop env ns resync gvks ?m2 (h @ [inf])"
    by blast
  have run: "buildInformerMap_loop env ns resync gvks ?m2 (h @ [inf]) = Inr (m', h')"
    using step Cons.prems(1) by simp
  have cg: "RESTClientFor env (Group g, Version g) = None"
    using res
    by (auto simp: resolves_def getClientForGVK_def Let_def split: option.splits sum.splits)
  have inv: "\<forall>k r. map_of ?m2 k = Some r \<longrightarrow> RESTClientFor env (Group k, Version k) = None"
    using Cons.prems(2) cg by (auto simp: update_conv' gvkList_def split: if_splits)
  show ?case using Cons.IH[OF run inv Cons.prems(3)] .
qed

lemma exampleEnv_resolves: "resolves exampleEnv gvk"
  by (simp add: resolves_def exampleEnv_def getClientForGVK_def exampleSchemeNew_def)

lemma exampleEnv_build_widget:
  "buildInformerMap exampleEnv [] 0 [widgetKind] [] =
     Inr (informerMap widgetCache,
          [NewSharedIndexInformer
             (NewFilteredListWatchFromClient (''example.com'', ''v1'') [] []) ''*v1.Widget'' 0])"
  by (simp add: buildInformerMap_def exampleEnv_def getClientForGVK_def exampleSchemeNew_def
      widgetKind_def gvkList_def widgetCache_def kindToResource_def kindToResourceMap_def)

text \<open>
  C8, as the code has it. When no kind of the input list is the list identifier of
  another kind of the list: if some kind fails to resolve, construction returns an error
  and no registry; if every kind resolves, construction returns a registry in which every
  kind of the list and its list identifier are mapped to the same informer of the heap.
\<close>

theorem buildInformerMap_pairs:
  assumes "\<forall>a\<in>set gvks. gvkList a \<notin> set gvks"
  shows "((\<exists>g\<in>set gvks. \<not> resolves env g) \<longrightarrow>
            (\<exists>err. buildInformerMap env ns resync gvks h = Inl err)) \<and>
         ((\<forall>g\<in>set gvks. resolves env g) \<longrightarrow>
            (\<exists>m h'. buildInformerMap env ns resync gvks h = Inr (m, h') \<and>
               (\<forall>g\<in>set gvks. \<exists>r. map_of m g = Some r \<and> map_of m (gvkList g) = Some r \<and>
                   r < length h')))"
proof (intro conjI impI)
  assume "\<exists>g\<in>set gvks. \<not> resolves env g"
  then have "\<not> (\<exists>res. buildInformerMap_loop env ns resync gvks [] h = Inr res)"
    using buildInformerMap_loop_success[of env ns resync gvks "[]" h] by blast
  then show "\<exists>err. buildInformerMap env ns resync gvks h = Inl err"
    by (cases "buildInformerMap_loop env ns resync gvks [] h")
       (auto simp: buildInformerMap_def)
next
  assume "\<forall>g\<in>set gvks. resolves env g"
  then obtain m h' where run: "buildInformerMap_loop env ns resync gvks [] h = Inr (m, h')"
    using buildInformerMap_loop_success[of env ns resync gvks "[]" h] by auto
  from buildInformerMap_loop_registry[OF run assms]
  show "\<exists>m h'. buildInformerMap env ns resync gvks h = Inr (m, h') \<and>
          (\<forall>g\<in>set gvks. \<exists>r. map_of m g = Some r \<and> map_of m (gvkList g) = Some r \<and>
              r < length h')"
    using run by (auto simp: buildInformerMap_def)
qed

theorem buildInformerMap_pairs_witness:
  "gvkList widgetKind \<notin> set [widgetKind] \<and> resolves exampleEnv widgetKind \<and>
   (\<exists>h'. buildInformerMap exampleEnv [] 0 [widgetKind] [] = Inr (informerMap widgetCache, h')) \<and>
   map_of (informerMap widgetCache) widgetKind = Some 0 \<and>
   map_of (informerMap widgetCache) (gvkList widgetKind) = Some 0"
proof -
  have a: "\<forall>a\<in>set [widgetKind]. gvkList a \<notin> set [widgetKind]"
    by (simp add: gvkList_neq)
  have "\<exists>m h'. buildInformerMap exampleEnv [] 0 [widgetKind] [] = Inr (m, h') \<and>
          (\<exists>r. map_of m widgetKind = Some r \<and> map_of m (gvkList widgetKind) = Some r \<and>
               r < length h')"
    using buildInformerMap_pairs[OF a, of exampleEnv "[]" 0 "[]"] exampleEnv_resolves
    by simp
  then show ?thesis
    using exampleEnv_resolves
    by (simp add: exampleEnv_build_widget gvkList_neq)
qed

text \<open>The claim as the specification states it, for any input list, fails on a kind
  followed by its own list kind: the second round overwrites the entry of the list kind,
  and the kind and its list identifier end up on different informers.\<close>

theorem buildInformerMap_pairs_counterexample:
  "map_sum id fst (buildInformerMap exampleEnv [] 0 [widgetKind, gvkList widgetKind] []) =
     Inr clashRegistry \<and>
   map_of clashRegistry widgetKind = Some 0 \<and>
   map_of clashRegistry (gvkList widgetKind) = Some 1"
  by (simp add: buildInformerMap_def exampleEnv_def getClientForGVK_def exampleSchemeNew_def
      widgetKind_def gvkList_def clashRegistry_def)

text \<open>
  C10. For a kind that is neither \<open>MutatingWebhookConfiguration\<close> nor
  \<open>ValidatingWebhookConfiguration\<close>, \<open>kindToResource\<close> is the empty string; so the remote
  refill request for that kind names the empty resource, and so does the list-and-watch
  subscription of the informer that registry construction allocates for that kind.
\<close>

theorem kindToResource_empty_elsewhere:
  assumes "Kind gvk \<noteq> ''MutatingWebhookConfiguration''"
    and "Kind gvk \<noteq> ''ValidatingWebhookConfiguration''"
  shows "kindToResource (Kind gvk) = [] \<and>
         reqResource (getFromClient_request client key gvk) = [] \<and>
         (\<forall>m h' i. buildInformerMap env ns resync gvks h = Inr (m, h') \<and>
             i < length gvks \<and> gvks ! i = gvk \<longrightarrow>
             lwResource (listerWatcher (h' ! (length h + i))) = [])"
proof -
  have k: "kindToResource (Kind gvk) = []"
    using assms by (rule kindToResource_other)
  have "lwResource (listerWatcher (h' ! (length h + i))) = []"
    if "buildInformerMap env ns resync gvks h = Inr (m, h')" "i < length gvks" "gvks ! i = gvk"
    for m h' i
  proof -
    have "buildInformerMap_loop env ns resync gvks [] h = Inr (m, h')"
      using that(1) by (simp add: buildInformerMap_def)
    from buildInformerMap_loop_heap[OF this] that(2,3) k
    show ?thesis by (simp add: NewFilteredListWatchFromClient_def)
  qed
  then show ?thesis using k by (simp add: getFromClient_request_def)
qed

theorem kindToResource_empty_elsewhere_witness:
  "Kind widgetKind \<noteq> ''MutatingWebhookConfiguration'' \<and>
   Kind widgetKind \<noteq> ''ValidatingWebhookConfiguration'' \<and>
   kindToResource (Kind widgetKind) = [] \<and>
   reqResource (getFromClient_request (''example.com'', ''v1'')
      \<lparr>KeyNamespace = ''ops'', KeyName = ''w2''\<rparr> widgetKind) = [] \<and>
   lwResource (listerWatcher
      (snd (projr (buildInformerMap exampleEnv [] 0 [widgetKind] [])) ! 0)) = []"
proof -
  have a: "Kind widgetKind \<noteq> ''MutatingWebhookConfiguration''"
    and b: "Kind widgetKind \<noteq> ''ValidatingWebhookConfiguration''"
    by (simp_all add: widgetKind_def)
  show ?thesis
    using a b kindToResource_empty_elsewhere[OF a b,
        of "(''example.com'', ''v1'')" "\<lparr>KeyNamespace = ''ops'', KeyName = ''w2''\<rparr>"
           exampleEnv "[]" 0 "[widgetKind]" "[]"]
    by (simp add: exampleEnv_build_widget)
qed

section \<open>List: properties\<close>

lemma widget_routed:
  "GVKForList exampleEnv widgetList = Inr (gvkList widgetKind) \<and>
   map_of (informerMap widgetCache) (gvkList widgetKind) = Some 0 \<and>
   deref [widgetInformer] 0 = Some widgetInformer"
  by (simp add: exampleEnv_def exampleGVKForList_def widgetCache_def deref_def gvkList_neq)

text \<open>
  C3. On a List call routed to a watch-backed store whose field selector is not a single
  equality requirement (its number of requirements is not one, or a requirement has an
  operator other than \<open>=\<close> and \<open>==\<close>), the call returns the unsupported-selector error
  and the caller's list object as it was.
\<close>

theorem List_unsupported_selector:
  assumes "GVKForList env list = Inr gvk"
    and "map_of (informerMap c) gvk = Some r"
    and "deref h r = Some informer"
    and "FieldSelector listOpts = Some sel"
    and "length sel \<noteq> 1 \<or>
         (\<exists>req\<in>set sel. ReqOperator req \<noteq> Equals \<and> ReqOperator req \<noteq> DoubleEquals)"
  shows "List env h c list listOpts = (Some NonExactFieldMatch, list)"
proof -
  have "requiresExactMatch sel = ([], [], False)"
    using assms(5) by (cases sel; cases "tl sel") (auto simp: requiresExactMatch_def)
  then have "List_candidates informer listOpts = Inl NonExactFieldMatch"
    using assms(4) by (simp add: List_candidates_def)
  then show ?thesis using assms(1-3) by (simp add: List_def)
qed

theorem List_unsupported_selector_witness:
  "FieldSelector notRed = Some [colorNotRed] \<and>
   ReqOperator colorNotRed \<noteq> Equals \<and> ReqOperator colorNotRed \<noteq> DoubleEquals \<and>
   List exampleEnv [widgetInformer] widgetCache widgetList notRed =
     (Some NonExactFieldMatch, widgetList) \<and>
   List exampleEnv [widgetInformer] widgetCache widgetList
       (redInOps\<lparr>FieldSelector := Some [colorRed, colorRed]\<rparr>) =
     (Some NonExactFieldMatch, widgetList)"
proof -
  have op: "ReqOperator colorNotRed \<noteq> Equals \<and> ReqOperator colorNotRed \<noteq> DoubleEquals"
    by (simp add: colorNotRed_def)
  have s1: "FieldSelector notRed = Some [colorNotRed]" by (simp add: notRed_def)
  have b1: "length [colorNotRed] \<noteq> 1 \<or>
      (\<exists>req\<in>set [colorNotRed]. ReqOperator req \<noteq> Equals \<and> ReqOperator req \<noteq> DoubleEquals)"
    using op by simp
  have s2: "FieldSelector (redInOps\<lparr>FieldSelector := Some [colorRed, colorRed]\<rparr>) =
      Some [colorRed, colorRed]" by simp
  have b2: "length [colorRed, colorRed] \<noteq> 1 \<or>
      (\<exists>req\<in>set [colorRed, colorRed]. ReqOperator req \<noteq> Equals \<and> ReqOperator req \<noteq> DoubleEquals)"
    by simp
  note r = widget_routed
  show ?thesis
    using op s1
      List_unsupported_selector[OF r[THEN conjunct1] r[THEN conjunct2, THEN conjunct1]
        r[THEN conjunct2, THEN conjunct2] s1 b1]
      List_unsupported_selector[OF r[THEN conjunct1] r[THEN conjunct2, THEN conjunct1]
        r[THEN conjunct2, THEN conjunct2] s2 b2]
    by simp
qed

text \<open>Candidate selection as coded is the precedence the specification words.\<close>

lemma List_candidates_spec:
  "List_candidates informer listOpts = spec_candidates informer listOpts"
  by (auto simp: List_candidates_def spec_candidates_def requiresExactMatch_def
      FieldIndexName_def KeyToNamespacedKey_def allNamespacesNamespace_def NamespaceIndex_def
      split: option.splits list.splits)

text \<open>The loop over candidates that are all objects with metadata appends the stamped
  survivors of the post-filter pass to its accumulator.\<close>

lemma List_loop_spec:
  "list_all hasMeta cands \<Longrightarrow> listToGVK gvk = Inr single \<Longrightarrow>
   List_loop gvk listOpts cands acc = Inr (acc @ spec_postFilter listOpts single cands)"
proof (induction cands arbitrary: acc)
  case Nil
  then show ?case by simp
next
  case (Cons it cands)
  then obtain obj meta where it: "it = Obj obj" "Meta obj = Some meta"
    by (cases it) auto
  have rest: "list_all hasMeta cands" using Cons.prems by simp
  show ?case
    using it Cons.IH[OF rest Cons.prems(2)] Cons.prems(2)
    by (auto simp: spec_survives_def split: option.splits)
qed

text \<open>
  C4. On a List call routed to a watch-backed store, when the candidates that the stated
  precedence selects (field index under the namespace-qualified or namespace-agnostic
  key, else namespace index, else all snapshots) are objects with metadata, the list
  handed to the caller's list object is exactly the candidates that pass the post-filter
  (namespace equal to the requested one if any, labels matched by the selector if any),
  in order, each stamped with the kind \<open>listToGVK\<close> returns.
\<close>

theorem List_selection_and_filter:
  assumes "GVKForList env list = Inr gvk"
    and "map_of (informerMap c) gvk = Some r"
    and "deref h r = Some informer"
    and "spec_candidates informer listOpts = Inr cands"
    and "list_all hasMeta cands"
    and "listToGVK gvk = Inr single"
  shows "List env h c list listOpts =
     (case SetList env list (spec_postFilter listOpts single cands) of
        Inl err \<Rightarrow> (Some err, list)
      | Inr list1 \<Rightarrow> (None, list1))"
  using assms List_loop_spec[OF assms(5,6), of listOpts "[]"]
  by (simp add: List_def List_candidates_spec)

theorem List_selection_and_filter_witness:
  "spec_candidates widgetInformer redInOps = Inr [Obj w1] \<and>
   list_all hasMeta [Obj w1] \<and>
   listToGVK (gvkList widgetKind) = Inr (widgetKind\<lparr>Kind := ''WidgetLi''\<rparr>) \<and>
   List exampleEnv [widgetInformer] widgetCache widgetList redInOps =
     (None, widgetList\<lparr>Items := [w1\<lparr>TypeMeta := widgetKind\<lparr>Kind := ''WidgetLi''\<rparr>\<rparr>]\<rparr>)"
proof -
  have cands: "spec_candidates widgetInformer redInOps = Inr [Obj w1]"
    by (simp add: spec_candidates_def widgetInformer_def redInOps_def colorRed_def
        widgetByIndex_def)
  have metas: "list_all hasMeta [Obj w1]" by (simp add: w1_def)
  have single: "listToGVK (gvkList widgetKind) = Inr (widgetKind\<lparr>Kind := ''WidgetLi''\<rparr>)"
    by (simp add: listToGVK_def gvkList_def widgetKind_def)
  note r = widget_routed
  show ?thesis
    using cands metas single
      List_selection_and_filter[OF r[THEN conjunct1] r[THEN conjunct2, THEN conjunct1]
        r[THEN conjunct2, THEN conjunct2] cands metas single]
    by (simp add: exampleEnv_def exampleSetList_def w1_def w1meta_def spec_survives_def
        redInOps_def)
qed

section \<open>Get: properties\<close>

lemma getFromStore_miss:
  "GetByKey informer (if KeyNamespace key = [] then KeyName key
                      else KeyNamespace key @ ''/'' @ KeyName key) = Inr None \<Longrightarrow>
   getFromStore informer key obj gvk =
     (Some (LocalNotFound (Group gvk) (Kind gvk) (KeyString key)), obj)"
  by (simp add: getFromStore_def)

lemma widget_get_routed:
  "GVKForObject exampleEnv blankWidget = Inr widgetKind \<and>
   map_of (informerMap widgetCache) widgetKind = Some 0 \<and>
   deref [widgetInformer] 0 = Some widgetInformer"
  by (simp add: exampleEnv_def exampleGVKForObject_def widgetCache_def deref_def)

text \<open>
  C6. On a Get routed to a watch-backed store whose snapshot table does not hold the
  key, the heap of informers after the call is the heap before it, whatever the remote
  fetch returns; when the call fails the caller's object is unchanged, and when the
  remote store returns an object of the caller's type, the caller's object is that
  object stamped with the kind.
\<close>

theorem Get_miss_leaves_store:
  assumes "GVKForObject env obj = Inr gvk"
    and "map_of (informerMap c) gvk = Some r"
    and "deref h r = Some informer"
    and "GetByKey informer (if KeyNamespace key = [] then KeyName key
                            else KeyNamespace key @ ''/'' @ KeyName key) = Inr None"
  shows "snd (snd (Get env h c key obj)) = h \<and>
         (fst (Get env h c key obj) \<noteq> None \<longrightarrow> fst (snd (Get env h c key obj)) = obj) \<and>
         (\<forall>client result. getClientForGVK env gvk = Inr client \<and>
             Do env (getFromClient_request client key gvk) = Inr result \<and>
             GoType result = GoType obj \<longrightarrow>
             Get env h c key obj = (None, result\<lparr>TypeMeta := gvk\<rparr>, h))"
  using assms getFromStore_miss[OF assms(4), of obj gvk]
  by (auto simp: Get_def getFromClient_def copyInto_def AssignableTo_def
      split: prod.splits sum.splits option.splits)

theorem Get_miss_leaves_store_witness:
  "GetByKey widgetInformer ''ops/w2'' = Inr None \<and>
   Get exampleEnv [widgetInformer] widgetCache \<lparr>KeyNamespace = ''ops'', KeyName = ''w2''\<rparr>
       blankWidget = (None, w2\<lparr>TypeMeta := widgetKind\<rparr>, [widgetInformer]) \<and>
   Get exampleEnv [widgetInformer] widgetCache \<lparr>KeyNamespace = ''ops'', KeyName = ''w3''\<rparr>
       blankWidget = (Some (StatusNotFound ''w3''), blankWidget, [widgetInformer])"
proof -
  note r = widget_get_routed
  have m2: "GetByKey widgetInformer
     (if KeyNamespace \<lparr>KeyNamespace = ''ops'', KeyName = ''w2''\<rparr> = []
      then KeyName \<lparr>KeyNamespace = ''ops'', KeyName = ''w2''\<rparr>
      else KeyNamespace \<lparr>KeyNamespace = ''ops'', KeyName = ''w2''\<rparr> @ ''/'' @
           KeyName \<lparr>KeyNamespace = ''ops'', KeyName = ''w2''\<rparr>) = Inr None"
    by (simp add: widgetInformer_def widgetGetByKey_def)
  have cl: "getClientForGVK exampleEnv widgetKind = Inr (''example.com'', ''v1'')"
    by (simp add: getClientForGVK_def exampleEnv_def widgetKind_def)
  have do2: "Do exampleEnv (getFromClient_request (''example.com'', ''v1'')
      \<lparr>KeyNamespace = ''ops'', KeyName = ''w2''\<rparr> widgetKind) = Inr w2"
    by (simp add: exampleEnv_def exampleDo_def getFromClient_request_def)
  have ty: "GoType w2 = GoType blankWidget" by (simp add: w2_def blankWidget_def)
  have g2: "Get exampleEnv [widgetInformer] widgetCache
       \<lparr>KeyNamespace = ''ops'', KeyName = ''w2''\<rparr> blankWidget =
       (None, w2\<lparr>TypeMeta := widgetKind\<rparr>, [widgetInformer])"
    using Get_miss_leaves_store[OF r[THEN conjunct1] r[THEN conjunct2, THEN conjunct1]
        r[THEN conjunct2, THEN conjunct2] m2] cl do2 ty
    by blast
  have g3: "Get exampleEnv [widgetInformer] widgetCache
       \<lparr>KeyNamespace = ''ops'', KeyName = ''w3''\<rparr> blankWidget =
       (Some (StatusNotFound ''w3''), blankWidget, [widgetInformer])"
    using r
    by (simp add: Get_def getFromStore_def getFromClient_def widgetInformer_def
        widgetGetByKey_def getClientForGVK_def exampleEnv_def exampleDo_def
        getFromClient_request_def widgetKind_def)
  show ?thesis using g2 g3 by (simp add: widgetInformer_def widgetGetByKey_def)
qed

text \<open>
  C7. For a cache whose registry was built by \<open>buildInformerMap\<close> under the same
  collaborators: on a Get routed to a watch-backed store whose snapshot table does not
  hold the key, an error of the remote fetch is what Get returns, the not-found error of
  the remote store as well as any other; the caller's object and the stores are left as
  they were. So a key absent locally and reported absent remotely yields not-found.
\<close>

theorem Get_miss_remote_error:
  assumes "buildInformerMap env ns resync gvks h0 = Inr (informerMap c, h1)"
    and "GVKForObject env obj = Inr gvk"
    and "map_of (informerMap c) gvk = Some r"
    and "deref h r = Some informer"
    and "GetByKey informer (if KeyNamespace key = [] then KeyName key
                            else KeyNamespace key @ ''/'' @ KeyName key) = Inr None"
    and "Do env (getFromClient_request (Group gvk, Version gvk) key gvk) = Inl err"
  shows "Get env h c key obj = (Some err, obj, h)"
proof -
  have "buildInformerMap_loop env ns resync gvks [] h0 = Inr (informerMap c, h1)"
    using assms(1) by (simp add: buildInformerMap_def)
  from buildInformerMap_loop_clients[OF this _ assms(3)]
  have "RESTClientFor env (Group gvk, Version gvk) = None" by simp
  then have cl: "getClientForGVK env gvk = Inr (Group gvk, Version gvk)"
    by (simp add: getClientForGVK_def)
  have "getFromClient env key obj gvk = (Some err, obj)"
    using cl assms(6) by (simp add: getFromClient_def)
  then show ?thesis
    using assms(2-4) getFromStore_miss[OF assms(5), of obj gvk]
    by (simp add: Get_def)
qed

theorem Get_miss_remote_error_witness:
  "buildInformerMap exampleEnv [] 0 [widgetKind] [] =
     Inr (informerMap widgetCache,
          [NewSharedIndexInformer
             (NewFilteredListWatchFromClient (''example.com'', ''v1'') [] []) ''*v1.Widget'' 0]) \<and>
   GetByKey widgetInformer ''ops/w3'' = Inr None \<and>
   Do exampleEnv (getFromClient_request (''example.com'', ''v1'')
      \<lparr>KeyNamespace = ''ops'', KeyName = ''w3''\<rparr> widgetKind) = Inl (StatusNotFound ''w3'') \<and>
   IsNotFound (StatusNotFound ''w3'') \<and>
   Get exampleEnv [widgetInformer] widgetCache \<lparr>KeyNamespace = ''ops'', KeyName = ''w3''\<rparr>
       blankWidget = (Some (StatusNotFound ''w3''), blankWidget, [widgetInformer])"
proof -
  note r = widget_get_routed
  have m3: "GetByKey widgetInformer
     (if KeyNamespace \<lparr>KeyNamespace = ''ops'', KeyName = ''w3''\<rparr> = []
      then KeyName \<lparr>KeyNamespace = ''ops'', KeyName = ''w3''\<rparr>
      else KeyNamespace \<lparr>KeyNamespace = ''ops'', KeyName = ''w3''\<rparr> @ ''/'' @
           KeyName \<lparr>KeyNamespace = ''ops'', KeyName = ''w3''\<rparr>) = Inr None"
    by (simp add: widgetInformer_def widgetGetByKey_def)
  have do3: "Do exampleEnv (getFromClient_request (Group widgetKind, Version widgetKind)
      \<lparr>KeyNamespace = ''ops'', KeyName = ''w3''\<rparr> widgetKind) = Inl (StatusNotFound ''w3'')"
    by (simp add: exampleEnv_def exampleDo_def getFromClient_request_def)
  have do3': "Do exampleEnv (getFromClient_request (''example.com'', ''v1'')
      \<lparr>KeyNamespace = ''ops'', KeyName = ''w3''\<rparr> widgetKind) = Inl (StatusNotFound ''w3'')"
    by (simp add: exampleEnv_def exampleDo_def getFromClient_request_def)
  have m3': "GetByKey widgetInformer ''ops/w3'' = Inr None"
    by (simp add: widgetInformer_def widgetGetByKey_def)
  show ?thesis
    using Get_miss_remote_error[OF exampleEnv_build_widget r[THEN conjunct1]
        r[THEN conjunct2, THEN conjunct1] r[THEN conjunct2, THEN conjunct2] m3 do3]
      m3' do3' exampleEnv_build_widget
    by simp
qed

text \<open>
  C9. In the cache-hit copy path and in the remote-refill copy path the guard asks
  whether the type of the caller's object is assignable to itself, which always holds:
  neither path returns the "cache had type ..., but ... was asked for" error. An item of
  the caller's type is copied and stamped; an item of any other type reaches
  \<open>reflect.Value.Set\<close>, which panics.
\<close>

theorem type_guard_vacuous:
  "AssignableTo (GoType obj) (GoType obj) \<and>
   (GetByKey informer (if KeyNamespace key = [] then KeyName key
                       else KeyNamespace key @ ''/'' @ KeyName key) = Inr (Some (Obj item)) \<longrightarrow>
      getFromStore informer key obj gvk =
        (if GoType item = GoType obj then (None, item\<lparr>TypeMeta := gvk\<rparr>)
         else (Some (Panic ''reflect.Set: value is not assignable''), obj)) \<and>
      fst (getFromStore informer key obj gvk) \<noteq> Some (TypeMismatch t u)) \<and>
   (getClientForGVK env gvk = Inr client \<and>
    Do env (getFromClient_request client key gvk) = Inr result \<longrightarrow>
      getFromClient env key obj gvk =
        (if GoType result = GoType obj then (None, result\<lparr>TypeMeta := gvk\<rparr>)
         else (Some (Panic ''reflect.Set: value is not assignable''), obj)) \<and>
      fst (getFromClient env key obj gvk) \<noteq> Some (TypeMismatch t u))"
  by (simp add: getFromStore_def getFromClient_def copyInto_def AssignableTo_def)

theorem type_guard_vacuous_witness:
  "GetByKey widgetInformer ''ops/w1'' = Inr (Some (Obj w1)) \<and>
   GoType w1 \<noteq> GoType blankGadget \<and>
   getFromStore widgetInformer \<lparr>KeyNamespace = ''ops'', KeyName = ''w1''\<rparr> blankGadget widgetKind =
     (Some (Panic ''reflect.Set: value is not assignable''), blankGadget) \<and>
   Do exampleEnv (getFromClient_request (''example.com'', ''v1'')
      \<lparr>KeyNamespace = ''ops'', KeyName = ''w2''\<rparr> widgetKind) = Inr w2 \<and>
   getFromClient exampleEnv \<lparr>KeyNamespace = ''ops'', KeyName = ''w2''\<rparr> blankGadget widgetKind =
     (Some (Panic ''reflect.Set: value is not assignable''), blankGadget)"
proof -
  have hit: "GetByKey widgetInformer
     (if KeyNamespace \<lparr>KeyNamespace = ''ops'', KeyName = ''w1''\<rparr> = []
      then KeyName \<lparr>KeyNamespace = ''ops'', KeyName = ''w1''\<rparr>
      else KeyNamespace \<lparr>KeyNamespace = ''ops'', KeyName = ''w1''\<rparr> @ ''/'' @
           KeyName \<lparr>KeyNamespace = ''ops'', KeyName = ''w1''\<rparr>) = Inr (Some (Obj w1))"
    by (simp add: widgetInformer_def widgetGetByKey_def)
  have cl: "getClientForGVK exampleEnv widgetKind = Inr (''example.com'', ''v1'')"
    by (simp add: getClientForGVK_def exampleEnv_def widgetKind_def)
  have do2: "Do exampleEnv (getFromClient_request (''example.com'', ''v1'')
      \<lparr>KeyNamespace = ''ops'', KeyName = ''w2''\<rparr> widgetKind) = Inr w2"
    by (simp add: exampleEnv_def exampleDo_def getFromClient_request_def)
  have ty: "GoType w1 \<noteq> GoType blankGadget" "GoType w2 \<noteq> GoType blankGadget"
    by (simp_all add: w1_def w2_def blankGadget_def)
  show ?thesis
    using hit cl do2 ty
      type_guard_vacuous[of blankGadget widgetInformer
        "\<lparr>KeyNamespace = ''ops'', KeyName = ''w1''\<rparr>" w1 widgetKind _ _ exampleEnv
        "(''example.com'', ''v1'')"]
      type_guard_vacuous[of blankGadget widgetInformer
        "\<lparr>KeyNamespace = ''ops'', KeyName = ''w2''\<rparr>" w1 widgetKind _ _ exampleEnv
        "(''example.com'', ''v1'')" w2]
    by (simp add: widgetInformer_def widgetGetByKey_def)
qed

section \<open>WaitForCacheSync: properties\<close>

text \<open>While the context is not cancelled and some store is not synchronized the loop
  keeps polling; it stops in the round in which the context is found cancelled.\<close>

lemma WaitForCacheSync_loop_until_cancel:
  "\<forall>s. t0 \<le> s \<and> s < t \<longrightarrow> \<not> Done w s \<and> m \<noteq> [] \<and> currentWaiting w s m \<Longrightarrow>
   t0 \<le> t \<Longrightarrow> Done w t \<Longrightarrow> WaitForCacheSync_loop w m t0 = Some t"
proof (induction "t - t0" arbitrary: t0)
  case 0
  then have "t0 = t" by simp
  then show ?case using "0.prems"(3) by (subst WaitForCacheSync_loop.simps) simp
next
  case (Suc n)
  then have lt: "t0 < t" by simp
  then have now: "\<not> Done w t0" "m \<noteq> []" "currentWaiting w t0 m"
    using Suc.prems(1) by auto
  have n: "n = t - Suc t0" using Suc.hyps(2) by simp
  have later: "\<forall>s. Suc t0 \<le> s \<and> s < t \<longrightarrow> \<not> Done w s \<and> m \<noteq> [] \<and> currentWaiting w s m"
    using Suc.prems(1) by auto
  have "WaitForCacheSync_loop w m t0 = WaitForCacheSync_loop w m (Suc t0)"
    using now by (subst WaitForCacheSync_loop.simps) simp
  also have "\<dots> = Some t"
    using Suc.hyps(1)[OF n later _ Suc.prems(3)] lt by simp
  finally show ?case .
qed

lemma WaitForCacheSync_on_cancel:
  assumes "\<forall>s<t. \<not> Done w s \<and> informerMap c \<noteq> [] \<and> currentWaiting w s (informerMap c)"
    and "Done w t"
  shows "WaitForCacheSync w c = fallbackWaitForCacheSync w t"
  using WaitForCacheSync_loop_until_cancel[of 0 t w "informerMap c"] assms
  by (simp add: WaitForCacheSync_def)

text \<open>
  C2, as the code has it. If the context is cancelled in a round before which the loop
  was still waiting (in particular, if it is cancelled on entry), the loop stops in that
  round whatever the stores report in it, and wait-for-sync returns what the fallback
  cache's own wait returns then: it returns false when the fallback cache reports false.
\<close>

theorem WaitForCacheSync_cancelled:
  assumes "\<forall>s<t. \<not> Done w s \<and> informerMap c \<noteq> [] \<and> currentWaiting w s (informerMap c)"
    and "Done w t"
    and "fallbackWaitForCacheSync w t = Some False"
  shows "WaitForCacheSync_loop w (informerMap c) 0 = Some t \<and>
         WaitForCacheSync w c = Some False"
  using WaitForCacheSync_loop_until_cancel[of 0 t w "informerMap c"] assms
  by (simp add: WaitForCacheSync_def)

theorem WaitForCacheSync_cancelled_witness:
  "\<not> Done cancelledLate 0 \<and> \<not> Done cancelledLate 1 \<and> Done cancelledLate 2 \<and>
   fallbackWaitForCacheSync cancelledLate 2 = Some False \<and>
   WaitForCacheSync_loop cancelledLate (informerMap widgetCache) 0 = Some 2 \<and>
   WaitForCacheSync cancelledLate widgetCache = Some False"
proof -
  have cw: "currentWaiting cancelledLate s (informerMap widgetCache)" for s
    by (simp add: currentWaiting_def cancelledLate_def widgetCache_def)
  have a: "\<forall>s<2. \<not> Done cancelledLate s \<and> informerMap widgetCache \<noteq> [] \<and>
             currentWaiting cancelledLate s (informerMap widgetCache)"
    using cw by (simp add: cancelledLate_def widgetCache_def)
  have b: "Done cancelledLate 2" by (simp add: cancelledLate_def)
  have f: "fallbackWaitForCacheSync cancelledLate 2 = Some False"
    by (simp add: cancelledLate_def)
  show ?thesis
    using WaitForCacheSync_cancelled[OF a b f] b f by (simp add: cancelledLate_def)
qed

text \<open>The claim as the specification states it, false whenever the context is
  cancelled, fails on a timeline cancelled from the start whose fallback cache reports
  synchronized: wait-for-sync returns true.\<close>

theorem WaitForCacheSync_cancelled_counterexample:
  "Done cancelledSynced 0 \<and> WaitForCacheSync cancelledSynced widgetCache = Some True"
proof -
  have d: "Done cancelledSynced 0" by (simp add: cancelledSynced_def)
  have "WaitForCacheSync cancelledSynced widgetCache =
        fallbackWaitForCacheSync cancelledSynced 0"
    using WaitForCacheSync_on_cancel[of 0 cancelledSynced widgetCache] d by simp
  then show ?thesis using d by (simp add: cancelledSynced_def)
qed

end
